theory Spec2Isabelle
  imports Main "HOL-Library.Word" "HOL-Library.Multiset"
begin

section \<open>Image scrambler: a shallow embedding of \<^verbatim>\<open>main.py\<close>\<close>

text \<open>
  The program shifts the colour channels of an RGB image by pseudorandom amounts and
  shuffles its pixels, both driven by a seed derived from a password. The embedding
  follows \<^verbatim>\<open>main.py\<close> function by function. What the program takes from Python's
  standard library and from Pillow (the hash function, the pseudorandom generator, the
  resampling of a thumbnail) is a parameter of the model, collected in the record
  \<open>runtime\<close>; everything proved below holds for every value of that record.
\<close>

subsection \<open>Data model\<close>

text \<open>
  A pixel of an RGB image is a tuple of three Python integers. Pillow hands out channel
  values between 0 and 255; \<open>valid_pixel\<close> says so.
\<close>

type_synonym pixel = "int \<times> int \<times> int"

definition valid_channel :: "int \<Rightarrow> bool" where
  "valid_channel c = (0 \<le> c \<and> c \<le> 255)"

fun valid_pixel :: "pixel \<Rightarrow> bool" where
  "valid_pixel (r, g, b) = (valid_channel r \<and> valid_channel g \<and> valid_channel b)"

definition valid_pixels :: "pixel list \<Rightarrow> bool" where
  "valid_pixels ps = list_all valid_pixel ps"

text \<open>
  A Pillow image object: its mode, its size and its pixel data in row-major order.
  \<open>wf_image\<close> is the invariant Pillow keeps: the data has one entry per pixel.
\<close>

record pil_image =
  mode :: string
  width :: nat
  height :: nat
  data :: "pixel list"

definition wf_image :: "pil_image \<Rightarrow> bool" where
  "wf_image im = (length (data im) = width im * height im)"

text \<open>
  The library functions the program calls. \<open>sha256\<close> is the digest of
  \<^verbatim>\<open>hashlib.sha256\<close> as a 256-bit string, its first byte in the most significant
  position. \<open>random_seed\<close> is the generator state that \<^verbatim>\<open>random.seed(a)\<close> installs.
  \<open>random_draw n g\<close> is one bounded draw from state \<open>g\<close>: a number and the state after
  it. \<open>resample\<close> is the resize that \<^verbatim>\<open>Image.thumbnail\<close> performs on an image that does
  not fit the requested box.
\<close>

record 'g runtime =
  sha256 :: "string \<Rightarrow> 256 word"
  random_seed :: "int \<Rightarrow> 'g"
  random_draw :: "nat \<Rightarrow> 'g \<Rightarrow> nat \<times> 'g"
  resample :: "nat \<times> nat \<Rightarrow> pil_image \<Rightarrow> pil_image"

subsection \<open>The pseudorandom generator (\<^verbatim>\<open>random\<close>)\<close>

text \<open>
  \<^verbatim>\<open>Random._randbelow(n)\<close> returns an integer in \<open>[0, n)\<close>. The draw of the runtime is
  reduced modulo \<open>n\<close>, so that \<open>randbelow\<close> ranges over exactly the draw functions that
  keep this contract (a draw already below \<open>n\<close> is left as it is).
\<close>

definition randbelow :: "'g runtime \<Rightarrow> nat \<Rightarrow> 'g \<Rightarrow> nat \<times> 'g" where
  "randbelow L n g = (case random_draw L n g of (v, g') \<Rightarrow> (v mod n, g'))"

text \<open>
  \<^verbatim>\<open>random.randint(a, b)\<close> is \<^verbatim>\<open>randrange(a, b + 1)\<close>, which returns
  \<^verbatim>\<open>a + _randbelow(b + 1 - a)\<close>.
\<close>

definition randint :: "'g runtime \<Rightarrow> int \<Rightarrow> int \<Rightarrow> 'g \<Rightarrow> int \<times> 'g" where
  "randint L a b g = (case randbelow L (nat (b + 1 - a)) g of (v, g') \<Rightarrow> (a + int v, g'))"

text \<open>
  \<^verbatim>\<open>random.shuffle(x)\<close>:
  \<^verbatim>\<open>
  for i in reversed(range(1, len(x))):
      j = randbelow(i + 1)
      x[i], x[j] = x[j], x[i]
  \<close>
  \<open>shuffle_loop\<close> is the loop over the indices \<open>i\<close>, \<open>shuffle\<close> the whole call.
\<close>

fun shuffle_loop :: "'g runtime \<Rightarrow> nat list \<Rightarrow> 'a list \<Rightarrow> 'g \<Rightarrow> 'a list \<times> 'g" where
  "shuffle_loop L [] x g = (x, g)"
| "shuffle_loop L (i # is) x g =
     (case randbelow L (i + 1) g of
        (j, g') \<Rightarrow> shuffle_loop L is (x[i := x ! j, j := x ! i]) g')"

definition shuffle :: "'g runtime \<Rightarrow> 'a list \<Rightarrow> 'g \<Rightarrow> 'a list \<times> 'g" where
  "shuffle L x g = shuffle_loop L (rev [1..<length x]) x g"

subsection \<open>\<^verbatim>\<open>shift_colors\<close>\<close>

text \<open>
  The body of the \<^verbatim>\<open>for r, g, b in pixels\<close> loop draws three shifts and appends one
  pixel; \<open>shift_loop\<close> returns the pixels appended and the generator state after the
  last draw. Python's \<^verbatim>\<open>%\<close> with a positive modulus is \<open>mod\<close> on \<open>int\<close>.
\<close>

fun shift_loop :: "'g runtime \<Rightarrow> bool \<Rightarrow> pixel list \<Rightarrow> 'g \<Rightarrow> pixel list \<times> 'g" where
  "shift_loop L reverse [] gs = ([], gs)"
| "shift_loop L reverse ((r, g, b) # pixels) gs =
     (case randint L 0 255 gs of (shift_r, gs1) \<Rightarrow>
      case randint L 0 255 gs1 of (shift_g, gs2) \<Rightarrow>
      case randint L 0 255 gs2 of (shift_b, gs3) \<Rightarrow>
      case shift_loop L reverse pixels gs3 of (shifted_pixels, gs') \<Rightarrow>
        ((if reverse
          then ((r - shift_r) mod 256, (g - shift_g) mod 256, (b - shift_b) mod 256)
          else ((r + shift_r) mod 256, (g + shift_g) mod 256, (b + shift_b) mod 256))
         # shifted_pixels, gs'))"

text \<open>
  \<open>shift_colors\<close> starts with \<^verbatim>\<open>random.seed(seed)\<close>, which replaces the state of the
  module's shared generator: the state \<open>gs\<close> it is called in is dropped.
\<close>

definition shift_colors ::
  "'g runtime \<Rightarrow> pixel list \<Rightarrow> int \<Rightarrow> bool \<Rightarrow> 'g \<Rightarrow> pixel list \<times> 'g" where
  "shift_colors L pixels seed reverse gs = shift_loop L reverse pixels (random_seed L seed)"

subsection \<open>\<^verbatim>\<open>generate_seed\<close>\<close>

text \<open>
  A password is modelled by its UTF-8 bytes: the program only tests it for emptiness
  (a string is empty exactly when its encoding is) and passes \<^verbatim>\<open>password.encode()\<close> to
  the hash function. \<open>digest\<close> lists the 32 bytes of a digest, \<open>hexdigest\<close> writes each
  byte as two lowercase hexadecimal digits, and \<open>py_int16\<close> is \<^verbatim>\<open>int(s, 16)\<close> on a string
  of such digits (on other strings Python raises \<^verbatim>\<open>ValueError\<close>; \<open>hexdigest\<close> produces
  none, see \<open>hex_value_digit\<close>).
\<close>

definition digest :: "256 word \<Rightarrow> 8 word list" where
  "digest w = map (\<lambda>i. ucast (drop_bit (8 * i) w)) (rev [0..<32])"

definition hex_chars :: string where
  "hex_chars = ''0123456789abcdef''"

definition hex_digit :: "nat \<Rightarrow> char" where
  "hex_digit n = hex_chars ! n"

definition hexlify :: "8 word list \<Rightarrow> string" where
  "hexlify bs = concat (map (\<lambda>b. [hex_digit (unat b div 16), hex_digit (unat b mod 16)]) bs)"

definition hexdigest :: "256 word \<Rightarrow> string" where
  "hexdigest w = hexlify (digest w)"

fun index_of :: "'a \<Rightarrow> 'a list \<Rightarrow> nat" where
  "index_of c [] = 0"
| "index_of c (x # xs) = (if x = c then 0 else Suc (index_of c xs))"

definition hex_value :: "char \<Rightarrow> int" where
  "hex_value c = int (index_of c hex_chars)"

definition py_int16 :: "string \<Rightarrow> int" where
  "py_int16 s = foldl (\<lambda>a c. 16 * a + hex_value c) 0 s"

definition generate_seed :: "(string \<Rightarrow> 256 word) \<Rightarrow> string \<Rightarrow> int" where
  "generate_seed H password = py_int16 (hexdigest (H password))"

subsection \<open>The application state and the Pillow operations\<close>

text \<open>
  Image objects are mutable and shared, so they live in a store: \<open>heap\<close> is the list of
  all image objects allocated so far and a reference is an index into it. \<open>rng\<close> is the
  state of the shared generator of the \<^verbatim>\<open>random\<close> module. The fields \<open>self_\<dots>\<close> are the
  attributes of the \<^verbatim>\<open>PixelShufflerApp\<close> object that the two operations read or write
  (the entry widget and the checkbox are represented by their current values), and
  \<open>warnings\<close> records the calls of \<^verbatim>\<open>messagebox.showwarning\<close> as (title, message).
\<close>

record 'g state =
  heap :: "pil_image list"
  rng :: 'g
  self_image :: "nat option"
  self_processed_image :: "nat option"
  self_password_entry :: string
  self_color_shift_var :: bool
  warnings :: "(string \<times> string) list"

definition showwarning :: "string \<Rightarrow> string \<Rightarrow> 'g state \<Rightarrow> 'g state" where
  "showwarning title message st = st\<lparr>warnings := warnings st @ [(title, message)]\<rparr>"

text \<open>\<^verbatim>\<open>list(image.getdata())\<close>: a fresh list of the pixels.\<close>

definition getdata :: "nat \<Rightarrow> 'g state \<Rightarrow> pixel list" where
  "getdata img st = data (heap st ! img)"

text \<open>
  \<^verbatim>\<open>image.putdata(xs)\<close> copies \<open>xs\<close> onto the image from its first pixel on and leaves
  the pixels beyond \<open>xs\<close> as they are. (Pillow raises \<^verbatim>\<open>TypeError\<close> when \<open>xs\<close> has more
  entries than the image has pixels; the program only passes lists of the image's own
  pixel count, see \<open>shift_colors_length\<close> and \<open>shuffle_list_length\<close>.)
\<close>

definition putdata :: "nat \<Rightarrow> pixel list \<Rightarrow> 'g state \<Rightarrow> 'g state" where
  "putdata img xs st =
     st\<lparr>heap := (heap st)[img :=
           (heap st ! img)\<lparr>data := xs @ drop (length xs) (data (heap st ! img))\<rparr>]\<rparr>"

text \<open>\<^verbatim>\<open>Image.new(mode, (w, h))\<close> allocates a black image.\<close>

definition Image_new :: "string \<Rightarrow> nat \<times> nat \<Rightarrow> 'g state \<Rightarrow> nat \<times> 'g state" where
  "Image_new m sz st =
     (length (heap st),
      st\<lparr>heap := heap st @
            [\<lparr>mode = m, width = fst sz, height = snd sz,
              data = replicate (fst sz * snd sz) (0, 0, 0)\<rparr>]\<rparr>)"

text \<open>
  \<^verbatim>\<open>image.thumbnail((x, y))\<close> returns at once when the image fits the box, and otherwise
  replaces the image, in place, by a smaller resampled one.
\<close>

definition thumbnail :: "'g runtime \<Rightarrow> nat \<times> nat \<Rightarrow> nat \<Rightarrow> 'g state \<Rightarrow> 'g state" where
  "thumbnail L sz img st =
     (if fst sz \<ge> width (heap st ! img) \<and> snd sz \<ge> height (heap st ! img) then st
      else st\<lparr>heap := (heap st)[img := resample L sz (heap st ! img)]\<rparr>)"

subsection \<open>\<^verbatim>\<open>shuffle_pixels\<close>\<close>

text \<open>
  The loop \<^verbatim>\<open>for i, shuffled_index in enumerate(indices): reverse_indices[shuffled_index] = i\<close>.
  (An assignment beyond the end of a Python list raises \<^verbatim>\<open>IndexError\<close>; every
  \<open>shuffled_index\<close> is below the length of \<open>reverse_indices\<close>, see \<open>shuffle_indices\<close>.)
\<close>

fun reverse_loop :: "(nat \<times> nat) list \<Rightarrow> nat list \<Rightarrow> nat list" where
  "reverse_loop [] reverse_indices = reverse_indices"
| "reverse_loop ((i, shuffled_index) # rest) reverse_indices =
     reverse_loop rest (reverse_indices[shuffled_index := i])"

text \<open>
  \<open>draw_indices\<close> is the part of \<^verbatim>\<open>shuffle_pixels\<close> from \<^verbatim>\<open>random.seed(seed)\<close> to the
  end of the \<^verbatim>\<open>if reverse\<close> block: the list \<open>indices\<close> that the comprehension then reads,
  and the generator state left behind.
\<close>

definition draw_indices :: "'g runtime \<Rightarrow> nat \<Rightarrow> int \<Rightarrow> bool \<Rightarrow> nat list \<times> 'g" where
  "draw_indices L total_pixels seed reverse =
     (case shuffle L [0..<total_pixels] (random_seed L seed) of
        (indices, g) \<Rightarrow>
          (if reverse
           then reverse_loop (enumerate 0 indices) (replicate total_pixels 0)
           else indices, g))"

text \<open>
  \<open>shuffle_list\<close> adds the comprehension \<^verbatim>\<open>[pixels[i] for i in indices]\<close>: it is
  \<^verbatim>\<open>shuffle_pixels\<close> on the pixel list, between \<^verbatim>\<open>getdata\<close> and \<^verbatim>\<open>Image.new\<close>.
\<close>

definition shuffle_list ::
  "'g runtime \<Rightarrow> pixel list \<Rightarrow> int \<Rightarrow> bool \<Rightarrow> pixel list \<times> 'g" where
  "shuffle_list L pixels seed reverse =
     (case draw_indices L (length pixels) seed reverse of
        (indices, g) \<Rightarrow> (map (\<lambda>i. pixels ! i) indices, g))"

definition shuffle_pixels ::
  "'g runtime \<Rightarrow> nat \<Rightarrow> int \<Rightarrow> bool \<Rightarrow> 'g state \<Rightarrow> nat \<times> 'g state" where
  "shuffle_pixels L img seed reverse st =
     (let sz = (width (heap st ! img), height (heap st ! img));
          pixels = getdata img st
      in case shuffle_list L pixels seed reverse of
        (shuffled_pixels, g) \<Rightarrow>
          (case Image_new (mode (heap st ! img)) sz (st\<lparr>rng := g\<rparr>) of
             (shuffled_image, st') \<Rightarrow>
               (shuffled_image, putdata shuffled_image shuffled_pixels st')))"

subsection \<open>The application: \<^verbatim>\<open>display_image\<close>, \<^verbatim>\<open>encrypt_image\<close>, \<^verbatim>\<open>decrypt_image\<close>\<close>

text \<open>
  \<^verbatim>\<open>display_image\<close> stores the image as the processed one and shrinks it, in place, to
  fit the 500 by 500 canvas; drawing on the canvas is left out.
\<close>

definition display_image :: "'g runtime \<Rightarrow> nat \<Rightarrow> 'g state \<Rightarrow> 'g state" where
  "display_image L img st =
     thumbnail L (500, 500) img (st\<lparr>self_processed_image := Some img\<rparr>)"

definition encrypt_image :: "'g runtime \<Rightarrow> 'g state \<Rightarrow> 'g state" where
  "encrypt_image L st =
     (case self_image st of
        None \<Rightarrow> showwarning ''Warning'' ''No image loaded!'' st
      | Some img \<Rightarrow>
          (let password = self_password_entry st in
           if password = [] then showwarning ''Warning'' ''Password is required!'' st
           else
             (let seed = generate_seed (sha256 L) password;
                  st1 = (if self_color_shift_var st
                         then (let pixels = getdata img st
                               in case shift_colors L pixels seed False (rng st) of
                                 (shifted_pixels, g) \<Rightarrow>
                                   putdata img shifted_pixels (st\<lparr>rng := g\<rparr>))
                         else st)
              in case shuffle_pixels L img seed False st1 of
                (encrypted_image, st2) \<Rightarrow> display_image L encrypted_image st2)))"

definition decrypt_image :: "'g runtime \<Rightarrow> 'g state \<Rightarrow> 'g state" where
  "decrypt_image L st =
     (case self_image st of
        None \<Rightarrow> showwarning ''Warning'' ''No image loaded!'' st
      | Some img \<Rightarrow>
          (let password = self_password_entry st in
           if password = [] then showwarning ''Warning'' ''Password is required!'' st
           else
             (let seed = generate_seed (sha256 L) password
              in case shuffle_pixels L img seed True st of
                (unshuffled_image, st1) \<Rightarrow>
                  (let st2 = (if self_color_shift_var st1
                              then (let pixels = getdata unshuffled_image st1
                                    in case shift_colors L pixels seed True (rng st1) of
                                      (unshifted_pixels, g) \<Rightarrow>
                                        putdata unshuffled_image unshifted_pixels
                                          (st1\<lparr>rng := g\<rparr>))
                              else st1)
                   in display_image L unshuffled_image st2))))"

subsection \<open>Notions used to state the properties\<close>

text \<open>
  \<open>shift_draws L n gs\<close> lists, pixel by pixel, the three shifts that the loop of
  \<^verbatim>\<open>shift_colors\<close> draws for \<open>n\<close> pixels when the generator is in state \<open>gs\<close>: the
  three \<^verbatim>\<open>random.randint(0, 255)\<close> calls of each iteration, in their order.
\<close>

fun shift_draws :: "'g runtime \<Rightarrow> nat \<Rightarrow> 'g \<Rightarrow> (int \<times> int \<times> int) list" where
  "shift_draws L 0 gs = []"
| "shift_draws L (Suc n) gs =
     (case randint L 0 255 gs of (shift_r, gs1) \<Rightarrow>
      case randint L 0 255 gs1 of (shift_g, gs2) \<Rightarrow>
      case randint L 0 255 gs2 of (shift_b, gs3) \<Rightarrow>
        (shift_r, shift_g, shift_b) # shift_draws L n gs3)"

fun add_shift :: "pixel \<Rightarrow> int \<times> int \<times> int \<Rightarrow> pixel" where
  "add_shift (r, g, b) (sr, sg, sb) = ((r + sr) mod 256, (g + sg) mod 256, (b + sb) mod 256)"

fun sub_shift :: "pixel \<Rightarrow> int \<times> int \<times> int \<Rightarrow> pixel" where
  "sub_shift (r, g, b) (sr, sg, sb) = ((r - sr) mod 256, (g - sg) mod 256, (b - sb) mod 256)"

text \<open>The image object that \<^verbatim>\<open>self.processed_image\<close> refers to, if any.\<close>

definition processed :: "'g state \<Rightarrow> pil_image option" where
  "processed st = map_option (\<lambda>r. heap st ! r) (self_processed_image st)"

text \<open>
  \<open>fits_canvas\<close>: the image is at most 500 by 500. Every image the application holds in
  \<^verbatim>\<open>self.image\<close> has been passed to \<^verbatim>\<open>display_image\<close> when it was loaded and was
  shrunk there to that size.
\<close>

definition fits_canvas :: "pil_image \<Rightarrow> bool" where
  "fits_canvas im = (width im \<le> 500 \<and> height im \<le> 500)"

text \<open>
  \<open>loaded st r\<close>: the application holds the image object \<open>r\<close> in \<^verbatim>\<open>self.image\<close>, the
  object exists, has one data entry per pixel, holds channel values of an RGB image
  and fits the canvas.
\<close>

definition loaded :: "'g state \<Rightarrow> nat \<Rightarrow> bool" where
  "loaded st r =
     (self_image st = Some r \<and> r < length (heap st) \<and> wf_image (heap st ! r) \<and>
      valid_pixels (data (heap st ! r)) \<and> fits_canvas (heap st ! r))"

subsection \<open>A small runtime and application states for examples\<close>

text \<open>
  A stand-in for the library: the hash is the length of the password, the generator
  state is a counter, and resampling crops.
\<close>

definition example_runtime :: "nat runtime" where
  "example_runtime =
     \<lparr>sha256 = (\<lambda>pw. word_of_nat (length pw)),
      random_seed = (\<lambda>a. nat \<bar>a\<bar>),
      random_draw = (\<lambda>n g. (7 * g + 3, g + 1)),
      resample = (\<lambda>sz im.
        \<lparr>mode = mode im, width = min (fst sz) (width im), height = min (snd sz) (height im),
         data = take (min (fst sz) (width im) * min (snd sz) (height im)) (data im)\<rparr>)\<rparr>"

definition example_image :: pil_image where
  "example_image =
     \<lparr>mode = ''RGB'', width = 2, height = 2,
      data = [(10, 20, 30), (40, 50, 60), (70, 80, 90), (100, 110, 120)]\<rparr>"

definition small_image :: pil_image where
  "small_image = \<lparr>mode = ''RGB'', width = 1, height = 1, data = [(1, 2, 3)]\<rparr>"

text \<open>
  The application after loading \<open>example_image\<close> (so \<^verbatim>\<open>self.image\<close> and
  \<^verbatim>\<open>self.processed_image\<close> are the same object), with a password typed in and colour
  shifting enabled; \<open>small_image\<close> is a second image object.
\<close>

definition example_state :: "nat state" where
  "example_state =
     \<lparr>heap = [example_image, small_image], rng = 0,
      self_image = Some 0, self_processed_image = Some 0,
      self_password_entry = ''test123'', self_color_shift_var = True, warnings = []\<rparr>"

text \<open>
  The application after encrypting \<open>example_image\<close>, when \<open>small_image\<close> rather than
  the encrypted image is then loaded: the image to decrypt has another size and pixel
  count than the one the encryption produced.
\<close>

definition mismatch_state :: "nat state" where
  "mismatch_state = (encrypt_image example_runtime example_state)\<lparr>self_image := Some 1\<rparr>"

section \<open>Properties\<close>

subsection \<open>Properties of the channel shift\<close>

lemma shift_loop_length: "length (fst (shift_loop L rv ps gs)) = length ps"
  by (induction ps arbitrary: gs) (auto simp: case_prod_beta)

lemma shift_loop_state: "snd (shift_loop L True ps gs) = snd (shift_loop L False ps gs)"
  by (induction ps arbitrary: gs) (auto simp: case_prod_beta)

lemma unshift_channel: "valid_channel c \<Longrightarrow> ((c + s) mod 256 - s) mod 256 = c"
  by (simp add: valid_channel_def mod_diff_left_eq)

lemma shift_loop_inverse:
  "valid_pixels ps \<Longrightarrow> fst (shift_loop L True (fst (shift_loop L False ps gs)) gs) = ps"
  by (induction ps arbitrary: gs) (auto simp: valid_pixels_def unshift_channel case_prod_beta)

lemma shift_colors_length: "length (fst (shift_colors L ps seed rv gs)) = length ps"
  by (simp add: shift_colors_def shift_loop_length)

subsection \<open>The shuffle is a permutation and the reverse mapping inverts it\<close>

lemma randbelow_less: "0 < n \<Longrightarrow> fst (randbelow L n g) < n"
  by (simp add: randbelow_def case_prod_beta)

lemma shuffle_loop_mset:
  "\<forall>i\<in>set is. i < length x \<Longrightarrow> mset (fst (shuffle_loop L is x g)) = mset x"
proof (induction "is" arbitrary: x g)
  case Nil
  then show ?case by simp
next
  case (Cons i "is")
  let ?j = "fst (randbelow L (i + 1) g)"
  have i: "i < length x" using Cons.prems by simp
  have "?j < i + 1" by (rule randbelow_less) simp
  with i have j: "?j < length x" by simp
  have "mset (x[i := x ! ?j, ?j := x ! i]) = mset x"
    using mset_swap [OF j i] .
  moreover have "\<forall>k\<in>set is. k < length (x[i := x ! ?j, ?j := x ! i])"
    using Cons.prems by simp
  ultimately show ?case
    using Cons.IH [of "x[i := x ! ?j, ?j := x ! i]" "snd (randbelow L (i + 1) g)"]
    by (simp add: case_prod_beta)
qed

lemma shuffle_mset: "mset (fst (shuffle L x g)) = mset x"
  unfolding shuffle_def by (rule shuffle_loop_mset) simp

lemma shuffle_indices:
  "mset (fst (shuffle L [0..<n] g)) = mset [0..<n]"
  by (rule shuffle_mset)

lemma shuffle_indices_length: "length (fst (shuffle L [0..<n] g)) = n"
  using mset_eq_length [OF shuffle_indices [of L n g]] by simp

lemma shuffle_indices_set: "set (fst (shuffle L [0..<n] g)) = {0..<n}"
  using mset_eq_setD [OF shuffle_indices [of L n g]] by simp

lemma shuffle_indices_distinct: "distinct (fst (shuffle L [0..<n] g))"
  using mset_eq_imp_distinct_iff [OF shuffle_indices [of L n g]] by simp

lemma reverse_loop_length: "length (reverse_loop es r) = length r"
  by (induction es r rule: reverse_loop.induct) simp_all

lemma reverse_loop_other:
  "s \<notin> snd ` set es \<Longrightarrow> reverse_loop es r ! s = r ! s"
  by (induction es r rule: reverse_loop.induct) auto

lemma reverse_loop_nth:
  "distinct xs \<Longrightarrow> \<forall>x\<in>set xs. x < length r \<Longrightarrow> i < length xs \<Longrightarrow>
   reverse_loop (enumerate n xs) r ! (xs ! i) = n + i"
proof (induction xs arbitrary: n r i)
  case Nil
  then show ?case by simp
next
  case (Cons x xs)
  show ?case
  proof (cases i)
    case 0
    have "x \<notin> snd ` set (enumerate (Suc n) xs)"
      using Cons.prems(1) by (auto simp: in_set_enumerate_eq)
    then have "reverse_loop (enumerate (Suc n) xs) (r[x := n]) ! x = r[x := n] ! x"
      by (rule reverse_loop_other)
    with 0 Cons.prems(2) show ?thesis by simp
  next
    case (Suc k)
    with Cons.prems Cons.IH [of "r[x := n]" k "Suc n"] show ?thesis by simp
  qed
qed

lemma draw_indices_forward:
  "fst (draw_indices L n seed False) = fst (shuffle L [0..<n] (random_seed L seed))"
  by (simp add: draw_indices_def case_prod_beta)

lemma draw_indices_reverse:
  "fst (draw_indices L n seed True) =
   reverse_loop (enumerate 0 (fst (shuffle L [0..<n] (random_seed L seed)))) (replicate n 0)"
  by (simp add: draw_indices_def case_prod_beta)

lemma draw_indices_length: "length (fst (draw_indices L n seed rv)) = n"
  by (cases rv)
    (simp_all add: draw_indices_forward draw_indices_reverse shuffle_indices_length
      reverse_loop_length)

lemma draw_indices_state:
  "snd (draw_indices L n seed rv) = snd (shuffle L [0..<n] (random_seed L seed))"
  by (simp add: draw_indices_def case_prod_beta)

lemma inverse_indices:
  assumes k: "k < n"
  shows "fst (draw_indices L n seed True) ! k < n \<and>
         fst (draw_indices L n seed False) ! (fst (draw_indices L n seed True) ! k) = k"
proof -
  let ?ind = "fst (shuffle L [0..<n] (random_seed L seed))"
  have "k \<in> set ?ind" using k by (simp add: shuffle_indices_set)
  then obtain i where i: "i < length ?ind" "?ind ! i = k"
    by (auto simp: in_set_conv_nth)
  have "reverse_loop (enumerate 0 ?ind) (replicate n 0) ! (?ind ! i) = 0 + i"
    by (rule reverse_loop_nth) (use i in \<open>simp_all add: shuffle_indices_distinct shuffle_indices_set\<close>)
  with i show ?thesis
    by (simp add: draw_indices_forward draw_indices_reverse shuffle_indices_length)
qed

lemma forward_indices_less:
  "k < n \<Longrightarrow> fst (draw_indices L n seed False) ! k < n"
proof -
  assume "k < n"
  then have "fst (shuffle L [0..<n] (random_seed L seed)) ! k
      \<in> set (fst (shuffle L [0..<n] (random_seed L seed)))"
    by (simp add: shuffle_indices_length)
  then show ?thesis by (simp add: draw_indices_forward shuffle_indices_set)
qed

lemma draw_indices_less:
  "k < n \<Longrightarrow> fst (draw_indices L n seed rv) ! k < n"
  by (cases rv) (simp_all add: inverse_indices forward_indices_less)

lemma shuffle_list_length: "length (fst (shuffle_list L ps seed rv)) = length ps"
  by (simp add: shuffle_list_def case_prod_beta draw_indices_length)

lemma shuffle_list_nth:
  "k < length ps \<Longrightarrow>
   fst (shuffle_list L ps seed rv) ! k = ps ! (fst (draw_indices L (length ps) seed rv) ! k)"
  by (simp add: shuffle_list_def case_prod_beta draw_indices_length)

lemma shuffle_list_inverse:
  "fst (shuffle_list L (fst (shuffle_list L ps seed False)) seed True) = ps"
proof (rule nth_equalityI)
  show "length (fst (shuffle_list L (fst (shuffle_list L ps seed False)) seed True)) = length ps"
    by (simp add: shuffle_list_length)
next
  fix k
  assume "k < length (fst (shuffle_list L (fst (shuffle_list L ps seed False)) seed True))"
  then have k: "k < length ps" by (simp add: shuffle_list_length)
  from inverse_indices [OF k, of L seed]
  show "fst (shuffle_list L (fst (shuffle_list L ps seed False)) seed True) ! k = ps ! k"
    using k by (simp add: shuffle_list_nth shuffle_list_length)
qed

lemma shuffle_list_set: "set (fst (shuffle_list L ps seed rv)) \<subseteq> set ps"
proof
  fix p
  assume "p \<in> set (fst (shuffle_list L ps seed rv))"
  then obtain k where "k < length ps" "p = fst (shuffle_list L ps seed rv) ! k"
    by (auto simp: in_set_conv_nth shuffle_list_length)
  then show "p \<in> set ps"
    by (simp add: shuffle_list_nth draw_indices_less)
qed

lemma shuffle_list_state:
  "snd (shuffle_list L ps seed True) = snd (shuffle_list L ps seed False)"
  by (simp add: shuffle_list_def case_prod_beta draw_indices_state)

lemma shuffle_list_small:
  "length ps \<le> 1 \<Longrightarrow> fst (shuffle_list L ps seed rv) = ps"
proof -
  assume "length ps \<le> 1"
  then consider "ps = []" | p where "ps = [p]"
    by (cases ps) auto
  then show ?thesis
  proof cases
    case 1
    then show ?thesis using shuffle_list_length [of L ps seed rv] by simp
  next
    case 2
    have "length (fst (shuffle_list L ps seed rv)) = 1" using 2 by (simp add: shuffle_list_length)
    moreover have "set (fst (shuffle_list L ps seed rv)) \<subseteq> {p}"
      using shuffle_list_set [of L ps seed rv] 2 by simp
    ultimately show ?thesis using 2
      by (cases "fst (shuffle_list L ps seed rv)") auto
  qed
qed

subsection \<open>What the operations do to the store\<close>

lemma shuffle_pixels_eq:
  assumes "wf_image (heap st ! r)"
  shows "shuffle_pixels L r seed rv st =
    (length (heap st),
     st\<lparr>heap := heap st @
            [(heap st ! r)\<lparr>data := fst (shuffle_list L (data (heap st ! r)) seed rv)\<rparr>],
        rng := snd (shuffle_list L (data (heap st ! r)) seed rv)\<rparr>)"
proof -
  have "length (fst (shuffle_list L (data (heap st ! r)) seed rv)) =
      width (heap st ! r) * height (heap st ! r)"
    using assms by (simp add: shuffle_list_length wf_image_def)
  then show ?thesis
    by (simp add: shuffle_pixels_def Let_def case_prod_beta getdata_def Image_new_def
        putdata_def)
qed

lemma putdata_eq:
  "length xs = length (data (heap st ! r)) \<Longrightarrow>
   putdata r xs st = st\<lparr>heap := (heap st)[r := (heap st ! r)\<lparr>data := xs\<rparr>]\<rparr>"
  by (simp add: putdata_def)

lemma display_image_fits:
  "width (heap st ! r) \<le> 500 \<Longrightarrow> height (heap st ! r) \<le> 500 \<Longrightarrow>
   display_image L r st = st\<lparr>self_processed_image := Some r\<rparr>"
  by (simp add: display_image_def thumbnail_def)

lemma encrypt_image_eq:
  fixes L :: "'g runtime" and st :: "'g state"
  assumes img: "self_image st = Some r" and r: "r < length (heap st)"
    and wf: "wf_image (heap st ! r)"
    and fits: "width (heap st ! r) \<le> 500" "height (heap st ! r) \<le> 500"
    and pw: "self_password_entry st \<noteq> []"
  defines "seed \<equiv> generate_seed (sha256 L) (self_password_entry st)"
  defines "S \<equiv> (if self_color_shift_var st
                 then fst (shift_colors L (data (heap st ! r)) seed False (rng st))
                 else data (heap st ! r))"
  shows "encrypt_image L st =
    st\<lparr>heap := (heap st)[r := (heap st ! r)\<lparr>data := S\<rparr>] @
          [(heap st ! r)\<lparr>data := fst (shuffle_list L S seed False)\<rparr>],
       rng := snd (shuffle_list L S seed False),
       self_processed_image := Some (length (heap st))\<rparr>"
proof (cases "self_color_shift_var st")
  case True
  let ?g = "snd (shift_colors L (data (heap st ! r)) seed False (rng st))"
  let ?st1 = "st\<lparr>heap := (heap st)[r := (heap st ! r)\<lparr>data := S\<rparr>], rng := ?g\<rparr>"
  have S: "S = fst (shift_colors L (data (heap st ! r)) seed False (rng st))"
    using True by (simp add: S_def)
  have len: "length S = length (data (heap st ! r))"
    by (simp add: S shift_colors_length)
  have st1: "putdata r S (st\<lparr>rng := ?g\<rparr>) = ?st1"
    using len by (simp add: putdata_eq)
  have wf1: "wf_image (heap ?st1 ! r)"
    using wf r len by (simp add: wf_image_def)
  have "encrypt_image L st =
      display_image L (fst (shuffle_pixels L r seed False (putdata r S (st\<lparr>rng := ?g\<rparr>))))
        (snd (shuffle_pixels L r seed False (putdata r S (st\<lparr>rng := ?g\<rparr>))))"
    using img pw True
    by (simp add: encrypt_image_def Let_def case_prod_beta seed_def getdata_def S)
  then have "encrypt_image L st =
      display_image L (fst (shuffle_pixels L r seed False ?st1))
        (snd (shuffle_pixels L r seed False ?st1))"
    by (simp only: st1)
  then show ?thesis
    using r fits by (simp add: shuffle_pixels_eq [OF wf1] display_image_fits nth_append)
next
  case False
  have S: "S = data (heap st ! r)" using False by (simp add: S_def)
  have enc: "encrypt_image L st =
      display_image L (fst (shuffle_pixels L r seed False st)) (snd (shuffle_pixels L r seed False st))"
    using img pw False
    by (simp add: encrypt_image_def Let_def case_prod_beta seed_def)
  show ?thesis
    unfolding enc shuffle_pixels_eq [OF wf]
    using r fits by (simp add: S display_image_fits nth_append)
qed

lemma decrypt_image_eq:
  fixes L :: "'g runtime" and st :: "'g state"
  assumes img: "self_image st = Some r" and r: "r < length (heap st)"
    and wf: "wf_image (heap st ! r)"
    and fits: "width (heap st ! r) \<le> 500" "height (heap st ! r) \<le> 500"
    and pw: "self_password_entry st \<noteq> []"
  defines "seed \<equiv> generate_seed (sha256 L) (self_password_entry st)"
  defines "U \<equiv> shuffle_list L (data (heap st ! r)) seed True"
  shows "decrypt_image L st =
    st\<lparr>heap := heap st @
          [(heap st ! r)\<lparr>data := (if self_color_shift_var st
                                   then fst (shift_colors L (fst U) seed True (snd U))
                                   else fst U)\<rparr>],
       rng := (if self_color_shift_var st
               then snd (shift_colors L (fst U) seed True (snd U)) else snd U),
       self_processed_image := Some (length (heap st))\<rparr>"
proof -
  let ?st1 = "snd (shuffle_pixels L r seed True st)"
  have sp: "shuffle_pixels L r seed True st =
      (length (heap st), st\<lparr>heap := heap st @ [(heap st ! r)\<lparr>data := fst U\<rparr>], rng := snd U\<rparr>)"
    unfolding U_def by (rule shuffle_pixels_eq [OF wf])
  have dec: "decrypt_image L st =
      display_image L (length (heap st))
        (if self_color_shift_var st
         then putdata (length (heap st)) (fst (shift_colors L (fst U) seed True (snd U)))
                (?st1\<lparr>rng := snd (shift_colors L (fst U) seed True (snd U))\<rparr>)
         else ?st1)"
    using img pw
    by (simp add: decrypt_image_def Let_def case_prod_beta seed_def [symmetric] sp getdata_def)
  show ?thesis
    unfolding dec using fits
    by (simp add: sp putdata_eq shift_colors_length display_image_fits)
qed

subsection \<open>The seed is the digest read as a number\<close>

lemma uint_byte: "uint (ucast (drop_bit (8 * i) w) :: 8 word) = uint w div 256 ^ i mod 256"
  for w :: "256 word"
proof -
  have "take_bit 256 (uint w) = uint w"
    using uint_bounded [of w] by (simp add: take_bit_eq_mod)
  then have "uint (ucast (drop_bit (8 * i) w) :: 8 word) = take_bit 8 (drop_bit (8 * i) (uint w))"
    by (simp add: unsigned_ucast_eq unsigned_drop_bit_eq)
  moreover have "(2::int) ^ (8 * i) = 256 ^ i" by (simp add: power_mult)
  ultimately show ?thesis
    by (simp add: take_bit_eq_mod drop_bit_eq_div)
qed

lemma byte_split: "16 * (16 * a + int (unat b div 16)) + int (unat b mod 16) = 256 * a + uint b"
  for b :: "8 word"
proof -
  have "int (unat b div 16) = uint b div 16" by (simp add: zdiv_int)
  moreover have "int (unat b mod 16) = uint b mod 16" by (simp add: zmod_int)
  ultimately show ?thesis by simp
qed

lemma foldl_bytes:
  "foldl (\<lambda>a b. 256 * a + uint b) a
     (map (\<lambda>i. ucast (drop_bit (8 * i) w) :: 8 word) (rev [0..<n])) =
   a * 256 ^ n + uint w mod 256 ^ n"
  for w :: "256 word"
proof (induction n arbitrary: a)
  case 0
  then show ?case by simp
next
  case (Suc n)
  let ?f = "\<lambda>a b. 256 * a + uint (b :: 8 word)"
  let ?b = "\<lambda>i. ucast (drop_bit (8 * i) w) :: 8 word"
  have split: "uint w mod (256 ^ n * 256) =
      256 ^ n * (uint w div 256 ^ n mod 256) + uint w mod 256 ^ n"
    by (rule zmod_zmult2_eq) simp
  have "foldl ?f a (map ?b (rev [0..<Suc n])) = foldl ?f (256 * a + uint (?b n)) (map ?b (rev [0..<n]))"
    by simp
  also have "\<dots> = (256 * a + uint (?b n)) * 256 ^ n + uint w mod 256 ^ n"
    by (rule Suc.IH)
  also have "\<dots> = a * 256 ^ Suc n + (256 ^ n * (uint w div 256 ^ n mod 256) + uint w mod 256 ^ n)"
    unfolding uint_byte by (simp add: algebra_simps)
  also have "\<dots> = a * 256 ^ Suc n + uint w mod 256 ^ Suc n"
    using split by (simp add: mult.commute)
  finally show ?case .
qed

lemma index_of_nth: "distinct xs \<Longrightarrow> n < length xs \<Longrightarrow> index_of (xs ! n) xs = n"
proof (induction xs arbitrary: n)
  case Nil
  then show ?case by simp
next
  case (Cons x xs)
  then show ?case by (cases n) auto
qed

lemma hex_value_digit: "n < 16 \<Longrightarrow> hex_value (hex_digit n) = int n"
  unfolding hex_value_def hex_digit_def
  by (subst index_of_nth) (simp_all add: hex_chars_def)

lemma foldl_hexlify:
  "foldl (\<lambda>a c. 16 * a + hex_value c) a (hexlify bs) = foldl (\<lambda>a b. 256 * a + uint b) a bs"
proof (induction bs arbitrary: a)
  case Nil
  then show ?case by (simp add: hexlify_def)
next
  case (Cons b bs)
  have "unat b < 256" using unsigned_less [of b] by simp
  then have d: "unat b div 16 < 16" and m: "unat b mod 16 < 16" by simp_all
  have "hexlify (b # bs) = hex_digit (unat b div 16) # hex_digit (unat b mod 16) # hexlify bs"
    by (simp add: hexlify_def)
  then have "foldl (\<lambda>a c. 16 * a + hex_value c) a (hexlify (b # bs)) =
      foldl (\<lambda>a c. 16 * a + hex_value c)
        (16 * (16 * a + int (unat b div 16)) + int (unat b mod 16)) (hexlify bs)"
    by (simp add: hex_value_digit [OF d] hex_value_digit [OF m])
  then show ?case
    by (simp only: byte_split Cons.IH foldl_Cons)
qed

lemma generate_seed_eq: "generate_seed H pw = uint (H pw)"
proof -
  have "uint (H pw) < 2 ^ 256" using uint_bounded [of "H pw"] by simp
  then have "uint (H pw) mod 256 ^ 32 = uint (H pw)" by simp
  then show ?thesis
    by (simp add: generate_seed_def py_int16_def hexdigest_def digest_def foldl_hexlify
        foldl_bytes)
qed

text \<open>
  The seed is the number whose base-256 digits are the 32 bytes of the digest, first
  byte first; it is at least 0 and below \<open>2 ^ 256\<close>, and two passwords have the same
  seed exactly when they have the same digest.
\<close>

lemma generate_seed_big_endian:
  "generate_seed H pw = foldl (\<lambda>a b. 256 * a + uint b) 0 (digest (H pw))"
proof -
  have "uint (H pw) < 2 ^ 256" using uint_bounded [of "H pw"] by simp
  then have "uint (H pw) mod 256 ^ 32 = uint (H pw)" by simp
  then show ?thesis by (simp add: generate_seed_eq digest_def foldl_bytes)
qed

lemma generate_seed_range: "generate_seed H pw \<in> {0..<2 ^ 256}"
  using uint_bounded [of "H pw"] by (simp add: generate_seed_eq)

lemma generate_seed_eq_iff: "(generate_seed H pw1 = generate_seed H pw2) = (H pw1 = H pw2)"
  by (simp add: generate_seed_eq word_uint_eq_iff)

text \<open>
  There are infinitely many non-empty passwords and \<open>2 ^ 256\<close> seeds, so whatever the
  hash function, some two different non-empty passwords have the same seed. The
  argument counts; it exhibits no such pair.
\<close>

lemma generate_seed_not_injective: "\<not> inj_on (generate_seed H) {pw. pw \<noteq> []}"
proof
  assume "inj_on (generate_seed H) {pw. pw \<noteq> []}"
  moreover have "generate_seed H ` {pw. pw \<noteq> []} \<subseteq> {0..<2 ^ 256}"
    using generate_seed_range by blast
  ultimately have "finite {pw :: string. pw \<noteq> []}"
    by (metis finite_atLeastLessThan_int inj_on_finite)
  moreover have "{pw :: string. pw \<noteq> []} = UNIV - {[]}" by auto
  ultimately have "finite (UNIV :: string set)" by simp
  then show False using infinite_UNIV_listI by blast
qed

subsection \<open>More on the channel shift\<close>

lemma randint_range: "valid_channel (fst (randint L 0 255 g))"
proof -
  have "fst (randbelow L 256 g) < 256" by (rule randbelow_less) simp
  then show ?thesis by (simp add: randint_def case_prod_beta valid_channel_def)
qed

lemma shift_draws_length: "length (shift_draws L n gs) = n"
  by (induction n arbitrary: gs) (simp_all add: case_prod_beta)

lemma shift_draws_range:
  "list_all (\<lambda>(sr, sg, sb). valid_channel sr \<and> valid_channel sg \<and> valid_channel sb)
     (shift_draws L n gs)"
  by (induction n arbitrary: gs) (simp_all add: case_prod_beta randint_range)

lemma shift_loop_forward:
  "fst (shift_loop L False ps gs) = map2 add_shift ps (shift_draws L (length ps) gs)"
  by (induction ps arbitrary: gs) (auto simp: case_prod_beta)

lemma shift_loop_reverse:
  "fst (shift_loop L True ps gs) = map2 sub_shift ps (shift_draws L (length ps) gs)"
  by (induction ps arbitrary: gs) (auto simp: case_prod_beta)

lemma shift_loop_valid: "valid_pixels (fst (shift_loop L rv ps gs))"
  by (induction ps arbitrary: gs) (auto simp: case_prod_beta valid_pixels_def valid_channel_def)

subsection \<open>Further facts about the stages and the example state\<close>

lemma shift_colors_valid: "valid_pixels (fst (shift_colors L ps seed rv gs))"
  by (simp add: shift_colors_def shift_loop_valid)

lemma shuffle_list_valid:
  "valid_pixels ps \<Longrightarrow> valid_pixels (fst (shuffle_list L ps seed rv))"
  using shuffle_list_set [of L ps seed rv]
  by (auto simp: valid_pixels_def list_all_iff)

lemma shuffle_pixels_fresh:
  "fst (shuffle_pixels L r seed rv st) = length (heap st) \<and>
   length (heap (snd (shuffle_pixels L r seed rv st))) = Suc (length (heap st)) \<and>
   take (length (heap st)) (heap (snd (shuffle_pixels L r seed rv st))) = heap st"
  by (simp add: shuffle_pixels_def Let_def case_prod_beta Image_new_def putdata_def)

lemma example_image_wf: "wf_image example_image"
  by (simp add: wf_image_def example_image_def)

lemma example_state_loaded: "loaded example_state 0"
  by (simp add: loaded_def example_state_def example_image_def wf_image_def valid_pixels_def
      valid_channel_def fits_canvas_def)

lemma example_state_password: "self_password_entry example_state \<noteq> []"
  by (simp add: example_state_def)

subsection \<open>The two operations on a loaded image\<close>

lemma processed_eq:
  "self_processed_image st = Some r \<Longrightarrow> processed st = Some (heap st ! r)"
  by (simp add: processed_def)

lemma encrypt_image_loaded:
  fixes L :: "'g runtime" and st :: "'g state"
  assumes ld: "loaded st r" and pw: "self_password_entry st \<noteq> []"
  defines "seed \<equiv> generate_seed (sha256 L) (self_password_entry st)"
  defines "S \<equiv> (if self_color_shift_var st
                 then fst (shift_colors L (data (heap st ! r)) seed False (rng st))
                 else data (heap st ! r))"
  shows "encrypt_image L st =
    st\<lparr>heap := (heap st)[r := (heap st ! r)\<lparr>data := S\<rparr>] @
          [(heap st ! r)\<lparr>data := fst (shuffle_list L S seed False)\<rparr>],
       rng := snd (shuffle_list L S seed False),
       self_processed_image := Some (length (heap st))\<rparr>"
  unfolding S_def seed_def
  using ld pw by (intro encrypt_image_eq) (simp_all add: loaded_def fits_canvas_def)

lemma decrypt_image_loaded:
  fixes L :: "'g runtime" and st :: "'g state"
  assumes ld: "loaded st r" and pw: "self_password_entry st \<noteq> []"
  defines "seed \<equiv> generate_seed (sha256 L) (self_password_entry st)"
  defines "U \<equiv> shuffle_list L (data (heap st ! r)) seed True"
  shows "decrypt_image L st =
    st\<lparr>heap := heap st @
          [(heap st ! r)\<lparr>data := (if self_color_shift_var st
                                   then fst (shift_colors L (fst U) seed True (snd U))
                                   else fst U)\<rparr>],
       rng := (if self_color_shift_var st
               then snd (shift_colors L (fst U) seed True (snd U)) else snd U),
       self_processed_image := Some (length (heap st))\<rparr>"
  unfolding U_def seed_def
  using ld pw by (intro decrypt_image_eq) (simp_all add: loaded_def fits_canvas_def)

lemma nth_update_snoc_new: "(xs[i := a] @ [b]) ! length xs = b"
  by (simp add: nth_append)

lemma nth_update_snoc_old: "i < length xs \<Longrightarrow> (xs[i := a] @ [b]) ! i = a"
  by (simp add: nth_append)

lemma encrypted_loaded:
  assumes ld: "loaded st r" and pw: "self_password_entry st \<noteq> []"
  shows "loaded ((encrypt_image L st)\<lparr>self_image := self_processed_image (encrypt_image L st),
            rng := g\<rparr>) (length (heap st))"
proof -
  have v: "valid_pixels (data (heap st ! r))" using ld by (simp add: loaded_def)
  let ?S = "if self_color_shift_var st
      then fst (shift_colors L (data (heap st ! r))
             (generate_seed (sha256 L) (self_password_entry st)) False (rng st))
      else data (heap st ! r)"
  have "valid_pixels ?S" using v by (simp add: shift_colors_valid)
  then have "valid_pixels (fst (shuffle_list L ?S
      (generate_seed (sha256 L) (self_password_entry st)) False))"
    by (rule shuffle_list_valid)
  moreover have "length ?S = length (data (heap st ! r))"
    by (simp add: shift_colors_length)
  ultimately show ?thesis
    using ld unfolding encrypt_image_loaded [OF ld pw]
    by (simp add: loaded_def wf_image_def fits_canvas_def shuffle_list_length
        nth_update_snoc_new)
qed

subsection \<open>The example states\<close>

lemma example_seed:
  "generate_seed (sha256 example_runtime) (self_password_entry example_state) = 7"
  by (simp add: generate_seed_eq example_runtime_def example_state_def)

lemma mismatch_state_facts:
  "self_image mismatch_state = Some (Suc 0)"
  "heap mismatch_state ! Suc 0 = small_image"
  "length (heap mismatch_state) = 3"
  "self_password_entry mismatch_state = ''test123''"
  "self_color_shift_var mismatch_state"
  "warnings mismatch_state = []"
  "self_processed_image mismatch_state = Some 2"
  "width (heap mismatch_state ! 2) = 2"
  "height (heap mismatch_state ! 2) = 2"
  "length (data (heap mismatch_state ! 2)) = 4"
  unfolding mismatch_state_def
    encrypt_image_loaded [OF example_state_loaded example_state_password]
  by (simp_all add: example_state_def example_image_def nth_append shuffle_list_length
      shift_colors_length)

lemma mismatch_state_loaded: "loaded mismatch_state (Suc 0)"
  by (simp add: loaded_def mismatch_state_facts small_image_def wf_image_def valid_pixels_def
      valid_channel_def fits_canvas_def)

section \<open>The claims\<close>

text \<open>
  C1. Decrypting what encrypting produced returns the original image. Let the
  application hold an image (\<open>loaded\<close>: one data entry per pixel, channel values between
  0 and 255, at most 500 by 500 as every image the application has loaded) and a
  non-empty password, with colour shifting enabled or not. Encrypt it; make the result
  the application's image, as saving and loading it does, with the shared generator in
  any state \<open>g\<close>; decrypt with the same password and the same setting. The processed
  image then equals the original one: same mode, size and pixel data. This covers the
  image without pixels and the image with one pixel.
\<close>

theorem encrypt_decrypt_round_trip:
  "loaded st r \<Longrightarrow> self_password_entry st \<noteq> [] \<Longrightarrow>
   processed
     (decrypt_image L
       ((encrypt_image L st)\<lparr>self_image := self_processed_image (encrypt_image L st),
          rng := g\<rparr>)) =
   Some (heap st ! r)"
proof -
  assume ld: "loaded st r" and pw: "self_password_entry st \<noteq> []"
  let ?seed = "generate_seed (sha256 L) (self_password_entry st)"
  let ?S = "if self_color_shift_var st
      then fst (shift_colors L (data (heap st ! r)) ?seed False (rng st))
      else data (heap st ! r)"
  let ?E = "fst (shuffle_list L ?S ?seed False)"
  let ?st1 = "(encrypt_image L st)\<lparr>self_image := self_processed_image (encrypt_image L st),
      rng := g\<rparr>"
  have v: "valid_pixels (data (heap st ! r))" using ld by (simp add: loaded_def)
  have ld1: "loaded ?st1 (length (heap st))" using ld pw by (rule encrypted_loaded)
  have pw1: "self_password_entry ?st1 \<noteq> []"
    using pw by (simp add: encrypt_image_loaded [OF ld pw])
  have flag: "self_color_shift_var ?st1 = self_color_shift_var st"
    and seed: "self_password_entry ?st1 = self_password_entry st"
    and im1: "heap ?st1 ! length (heap st) = (heap st ! r)\<lparr>data := ?E\<rparr>"
    by (simp_all add: encrypt_image_loaded [OF ld pw] nth_update_snoc_new)
  have unshift: "fst (shift_colors L
      (fst (shift_colors L (data (heap st ! r)) ?seed False (rng st))) ?seed True g') =
      data (heap st ! r)" for g'
    using v by (simp add: shift_colors_def shift_loop_inverse)
  show ?thesis
    unfolding decrypt_image_loaded [OF ld1 pw1] flag seed im1
    by (simp add: processed_def shuffle_list_inverse unshift)
qed

theorem encrypt_decrypt_round_trip_witness:
  "loaded example_state 0 \<and> self_password_entry example_state \<noteq> [] \<and>
   processed
     (decrypt_image example_runtime
       ((encrypt_image example_runtime example_state)
          \<lparr>self_image := self_processed_image (encrypt_image example_runtime example_state),
           rng := 42\<rparr>)) =
   Some example_image"
proof -
  have "heap example_state ! 0 = example_image" by (simp add: example_state_def)
  with encrypt_decrypt_round_trip [OF example_state_loaded example_state_password,
      of example_runtime 42]
  show ?thesis using example_state_loaded example_state_password by simp
qed

text \<open>
  C2. For every \<open>n\<close> and every seed, the index list drawn by the permutation stage
  holds every index \<open>0, \<dots>, n - 1\<close> exactly once. Unshuffling a shuffled pixel list
  with the same seed returns the list, and unshuffling the shuffled image returns an
  image equal to the original one. The empty and the one-pixel list are returned
  unchanged.
\<close>

theorem pixel_permutation_bijective:
  "wf_image (heap st ! r) \<Longrightarrow>
   mset (fst (draw_indices L n seed False)) = mset [0..<n] \<and>
   distinct (fst (draw_indices L n seed False)) \<and>
   set (fst (draw_indices L n seed False)) = {0..<n} \<and>
   length (fst (draw_indices L n seed False)) = n \<and>
   fst (shuffle_list L (fst (shuffle_list L P seed False)) seed True) = P \<and>
   (case shuffle_pixels L r seed False st of
      (e, st1) \<Rightarrow>
        (case shuffle_pixels L e seed True st1 of
           (u, st2) \<Rightarrow> heap st2 ! u = heap st ! r)) \<and>
   fst (shuffle_list L [] seed reverse) = [] \<and>
   fst (shuffle_list L [p] seed reverse) = [p]"
proof -
  assume wf: "wf_image (heap st ! r)"
  let ?st1 = "snd (shuffle_pixels L r seed False st)"
  have wf1: "wf_image (heap ?st1 ! length (heap st))"
    using wf by (simp add: shuffle_pixels_eq [OF wf] wf_image_def shuffle_list_length)
  have "heap (snd (shuffle_pixels L (length (heap st)) seed True ?st1)) !
      fst (shuffle_pixels L (length (heap st)) seed True ?st1) = heap st ! r"
    unfolding shuffle_pixels_eq [OF wf1]
    by (simp add: shuffle_pixels_eq [OF wf] shuffle_list_inverse nth_append)
  then have img: "case shuffle_pixels L r seed False st of
      (e, st1) \<Rightarrow>
        (case shuffle_pixels L e seed True st1 of
           (u, st2) \<Rightarrow> heap st2 ! u = heap st ! r)"
    by (simp add: case_prod_beta shuffle_pixels_fresh)
  show ?thesis
    using img
    by (simp add: draw_indices_forward shuffle_indices shuffle_indices_distinct
        shuffle_indices_set shuffle_indices_length shuffle_list_inverse shuffle_list_small)
qed

theorem pixel_permutation_bijective_witness:
  "wf_image (heap example_state ! 0) \<and>
   mset (fst (draw_indices example_runtime 4 7 False)) = mset [0..<4] \<and>
   (case shuffle_pixels example_runtime 0 7 False example_state of
      (e, st1) \<Rightarrow>
        (case shuffle_pixels example_runtime e 7 True st1 of
           (u, st2) \<Rightarrow> heap st2 ! u = heap example_state ! 0))"
proof -
  have wf: "wf_image (heap example_state ! 0)"
    using example_state_loaded by (simp add: loaded_def)
  from pixel_permutation_bijective [OF wf, where L = example_runtime and n = 4 and seed = 7
      and P = "[]" and reverse = False and p = "(0, 0, 0)"]
  show ?thesis using wf by simp
qed

text \<open>
  C3. For every pixel list \<open>p\<close> with channel values between 0 and 255 and every seed
  \<open>s\<close>, the reverse channel shift applied to the output of the forward channel shift
  with the same seed returns \<open>p\<close>, whatever states \<open>g1\<close> and \<open>g2\<close> the shared generator
  is in when the two calls start. The forward call adds, modulo 256, the shifts
  \<open>shift_draws \<dots>\<close> drawn after seeding with \<open>s\<close>; the reverse call subtracts, modulo
  256, the same shifts; each shift is between 0 and 255.
\<close>

theorem shift_colors_round_trip:
  "valid_pixels p \<Longrightarrow>
   fst (shift_colors L (fst (shift_colors L p s False g1)) s True g2) = p \<and>
   fst (shift_colors L p s False g1) =
     map2 add_shift p (shift_draws L (length p) (random_seed L s)) \<and>
   fst (shift_colors L (fst (shift_colors L p s False g1)) s True g2) =
     map2 sub_shift (fst (shift_colors L p s False g1))
       (shift_draws L (length p) (random_seed L s)) \<and>
   list_all (\<lambda>(sr, sg, sb). valid_channel sr \<and> valid_channel sg \<and> valid_channel sb)
     (shift_draws L (length p) (random_seed L s))"
proof (intro conjI)
  assume "valid_pixels p"
  then show "fst (shift_colors L (fst (shift_colors L p s False g1)) s True g2) = p"
    by (simp add: shift_colors_def shift_loop_inverse)
next
  show "fst (shift_colors L p s False g1) =
      map2 add_shift p (shift_draws L (length p) (random_seed L s))"
    by (simp add: shift_colors_def shift_loop_forward)
next
  show "fst (shift_colors L (fst (shift_colors L p s False g1)) s True g2) =
      map2 sub_shift (fst (shift_colors L p s False g1))
        (shift_draws L (length p) (random_seed L s))"
    using shift_loop_reverse [of L "fst (shift_loop L False p (random_seed L s))" "random_seed L s"]
    by (simp add: shift_colors_def shift_loop_length)
next
  show "list_all (\<lambda>(sr, sg, sb). valid_channel sr \<and> valid_channel sg \<and> valid_channel sb)
      (shift_draws L (length p) (random_seed L s))"
    by (rule shift_draws_range)
qed

theorem shift_colors_round_trip_witness:
  "valid_pixels (data example_image) \<and>
   fst (shift_colors example_runtime
         (fst (shift_colors example_runtime (data example_image) 7 False 0)) 7 True 5) =
     data example_image"
proof -
  have v: "valid_pixels (data example_image)"
    by (simp add: example_image_def valid_pixels_def valid_channel_def)
  from shift_colors_round_trip [OF v, of example_runtime 7 0 5] v show ?thesis by blast
qed

text \<open>
  C4. Every transform stage keeps the shape of the pixel buffer. The channel shift,
  forward or reverse, returns as many pixels as it was given, each with channel values
  between 0 and 255. The pixel shuffle, forward or reverse, applied to an image with
  one data entry per pixel and channel values between 0 and 255, returns an image of
  the same width and height with the same number of pixels, again one data entry per
  pixel and all channel values between 0 and 255.
\<close>

theorem transforms_preserve_shape:
  "wf_image (heap st ! r) \<Longrightarrow> valid_pixels (data (heap st ! r)) \<Longrightarrow>
   length (fst (shift_colors L ps seed rv g)) = length ps \<and>
   valid_pixels (fst (shift_colors L ps seed rv g)) \<and>
   (case shuffle_pixels L r seed rv st of
      (r', st') \<Rightarrow>
        width (heap st' ! r') = width (heap st ! r) \<and>
        height (heap st' ! r') = height (heap st ! r) \<and>
        length (data (heap st' ! r')) = length (data (heap st ! r)) \<and>
        valid_pixels (data (heap st' ! r')) \<and>
        wf_image (heap st' ! r'))"
proof -
  assume wf: "wf_image (heap st ! r)" and v: "valid_pixels (data (heap st ! r))"
  have "length (fst (shift_colors L ps seed rv g)) = length ps"
    by (rule shift_colors_length)
  moreover have "valid_pixels (fst (shift_colors L ps seed rv g))"
    by (rule shift_colors_valid)
  moreover have "case shuffle_pixels L r seed rv st of
      (r', st') \<Rightarrow>
        width (heap st' ! r') = width (heap st ! r) \<and>
        height (heap st' ! r') = height (heap st ! r) \<and>
        length (data (heap st' ! r')) = length (data (heap st ! r)) \<and>
        valid_pixels (data (heap st' ! r')) \<and>
        wf_image (heap st' ! r')"
    using wf shuffle_list_valid [OF v, of L seed rv]
    by (simp add: shuffle_pixels_eq [OF wf] shuffle_list_length wf_image_def)
  ultimately show ?thesis by blast
qed

theorem transforms_preserve_shape_witness:
  "wf_image (heap example_state ! 0) \<and> valid_pixels (data (heap example_state ! 0)) \<and>
   length (fst (shift_colors example_runtime [(1, 2, 3)] 7 True 0)) = length [(1::int, 2::int, 3::int)] \<and>
   (case shuffle_pixels example_runtime 0 7 False example_state of
      (r', st') \<Rightarrow> width (heap st' ! r') = width (heap example_state ! 0))"
proof -
  have wf: "wf_image (heap example_state ! 0)" and v: "valid_pixels (data (heap example_state ! 0))"
    using example_state_loaded by (simp_all add: loaded_def)
  from transforms_preserve_shape [OF wf v, where L = example_runtime and ps = "[(1, 2, 3)]"
      and seed = 7 and rv = True and g = 0]
  have "length (fst (shift_colors example_runtime [(1, 2, 3)] 7 True 0)) =
      length [(1::int, 2::int, 3::int)]"
    by blast
  moreover from transforms_preserve_shape [OF wf v, where L = example_runtime and seed = 7
      and rv = False]
  have "case shuffle_pixels example_runtime 0 7 False example_state of
      (r', st') \<Rightarrow> width (heap st' ! r') = width (heap example_state ! 0)"
    by (simp add: case_prod_beta)
  ultimately show ?thesis using wf v by blast
qed

text \<open>
  C5. With an image loaded and an empty password, Encrypt and Decrypt both stop with
  the warning ``Password is required!'' and change nothing else: the store of images,
  the generator state, \<^verbatim>\<open>self.image\<close> and \<^verbatim>\<open>self.processed_image\<close> are as before. The
  outcome is the same for every runtime \<open>L\<close>, \<open>L'\<close>: neither the hash function (no seed
  is derived) nor the generator is consulted.
\<close>

theorem empty_password_rejected:
  "self_image st = Some r \<Longrightarrow> self_password_entry st = [] \<Longrightarrow>
   encrypt_image L st = showwarning ''Warning'' ''Password is required!'' st \<and>
   decrypt_image L st = showwarning ''Warning'' ''Password is required!'' st \<and>
   encrypt_image L st = encrypt_image L' st \<and>
   decrypt_image L st = decrypt_image L' st \<and>
   heap (encrypt_image L st) = heap st \<and> heap (decrypt_image L st) = heap st \<and>
   rng (encrypt_image L st) = rng st \<and> rng (decrypt_image L st) = rng st \<and>
   self_image (encrypt_image L st) = self_image st \<and>
   self_image (decrypt_image L st) = self_image st \<and>
   self_processed_image (encrypt_image L st) = self_processed_image st \<and>
   self_processed_image (decrypt_image L st) = self_processed_image st"
  by (simp add: encrypt_image_def decrypt_image_def showwarning_def)

theorem empty_password_rejected_witness:
  "self_image (example_state\<lparr>self_password_entry := []\<rparr>) = Some 0 \<and>
   self_password_entry (example_state\<lparr>self_password_entry := []\<rparr>) = [] \<and>
   encrypt_image example_runtime (example_state\<lparr>self_password_entry := []\<rparr>) =
     showwarning ''Warning'' ''Password is required!''
       (example_state\<lparr>self_password_entry := []\<rparr>)"
proof -
  have a: "self_image (example_state\<lparr>self_password_entry := []\<rparr>) = Some 0"
    and b: "self_password_entry (example_state\<lparr>self_password_entry := []\<rparr>) = []"
    by (simp_all add: example_state_def)
  from empty_password_rejected [OF a b, of example_runtime example_runtime] a b
  show ?thesis by blast
qed

text \<open>
  C6 as stated fails on the code. No function of the program compares the size or the
  pixel count of the image it is given with anything. In \<open>mismatch_state\<close> the
  encryption has produced a 2 by 2 image of 4 pixels and the image handed to Decrypt is
  1 by 1 with 1 pixel; Decrypt issues no warning and returns a transformed 1 by 1 image.
\<close>

theorem shape_mismatch_counterexample:
  "map_option (\<lambda>im. (width im, height im, length (data im))) (processed mismatch_state) =
     Some (2, 2, 4) \<and>
   map_option (\<lambda>r. (width (heap mismatch_state ! r), height (heap mismatch_state ! r),
       length (data (heap mismatch_state ! r)))) (self_image mismatch_state) =
     Some (1, 1, 1) \<and>
   warnings (decrypt_image example_runtime mismatch_state) = [] \<and>
   processed (decrypt_image example_runtime mismatch_state) =
     Some \<lparr>mode = ''RGB'', width = 1, height = 1, data = [(205, 199, 193)]\<rparr>"
proof -
  have pw: "self_password_entry mismatch_state \<noteq> []"
    by (simp add: mismatch_state_facts)
  have seed: "generate_seed (sha256 example_runtime) (self_password_entry mismatch_state) = 7"
    by (simp add: generate_seed_eq example_runtime_def mismatch_state_facts)
  have un: "fst (shuffle_list example_runtime [(1, 2, 3)] 7 True) = [(1, 2, 3)]"
    by (rule shuffle_list_small) simp
  have sh: "fst (shift_colors example_runtime [(1, 2, 3)] 7 True g) = [(205, 199, 193)]" for g
    by (simp add: shift_colors_def randint_def randbelow_def example_runtime_def)
  have "processed (decrypt_image example_runtime mismatch_state) =
      Some \<lparr>mode = ''RGB'', width = 1, height = 1, data = [(205, 199, 193)]\<rparr>"
    unfolding decrypt_image_loaded [OF mismatch_state_loaded pw] seed
    by (simp add: processed_def mismatch_state_facts small_image_def un sh nth_append)
  moreover have "warnings (decrypt_image example_runtime mismatch_state) = []"
    unfolding decrypt_image_loaded [OF mismatch_state_loaded pw]
    by (simp add: mismatch_state_facts)
  ultimately show ?thesis
    by (simp add: processed_def mismatch_state_facts small_image_def)
qed

text \<open>
  C6, amended. Decrypt validates no shape: on every loaded image with a non-empty
  password it issues no warning and stores as processed image a new image object with
  the width, the height and the pixel count of the image it was given, whatever image
  the encryption produced.
\<close>

theorem decrypt_accepts_any_shape:
  "loaded st r \<Longrightarrow> self_password_entry st \<noteq> [] \<Longrightarrow>
   warnings (decrypt_image L st) = warnings st \<and>
   self_processed_image (decrypt_image L st) = Some (length (heap st)) \<and>
   map_option width (processed (decrypt_image L st)) = Some (width (heap st ! r)) \<and>
   map_option height (processed (decrypt_image L st)) = Some (height (heap st ! r)) \<and>
   map_option (\<lambda>im. length (data im)) (processed (decrypt_image L st)) =
     Some (length (data (heap st ! r)))"
proof -
  assume ld: "loaded st r" and pw: "self_password_entry st \<noteq> []"
  show ?thesis
    unfolding decrypt_image_loaded [OF ld pw]
    by (simp add: processed_def shift_colors_length shuffle_list_length)
qed

theorem decrypt_accepts_any_shape_witness:
  "loaded mismatch_state 1 \<and> self_password_entry mismatch_state \<noteq> [] \<and>
   warnings (decrypt_image example_runtime mismatch_state) = warnings mismatch_state \<and>
   map_option width (processed (decrypt_image example_runtime mismatch_state)) =
     Some (width (heap mismatch_state ! 1))"
proof -
  have pw: "self_password_entry mismatch_state \<noteq> []"
    by (simp add: mismatch_state_facts)
  have ld: "loaded mismatch_state 1"
    using mismatch_state_loaded by simp
  from decrypt_accepts_any_shape [OF ld pw, of example_runtime] ld pw
  show ?thesis by blast
qed

text \<open>
  C7. The stage order is fixed. On a loaded image with a non-empty password, Encrypt
  yields the shuffle of the shifted pixels (of the pixels themselves when colour
  shifting is off) and Decrypt yields the reverse shift of the unshuffled pixels (the
  unshuffled pixels themselves when colour shifting is off). No stage depends on the
  generator state the other one leaves: the shift stage may start from any states \<open>g1\<close>,
  \<open>g2\<close>, \<open>g3\<close>, since it begins by seeding the generator with the seed, and so does
  the shuffle stage.
\<close>

theorem pipeline_stage_order:
  "loaded st r \<Longrightarrow> self_password_entry st \<noteq> [] \<Longrightarrow>
   processed (encrypt_image L st) =
     Some ((heap st ! r)\<lparr>data :=
       fst (shuffle_list L
         (if self_color_shift_var st
          then fst (shift_colors L (data (heap st ! r))
                 (generate_seed (sha256 L) (self_password_entry st)) False g1)
          else data (heap st ! r))
         (generate_seed (sha256 L) (self_password_entry st)) False)\<rparr>) \<and>
   processed (decrypt_image L st) =
     Some ((heap st ! r)\<lparr>data :=
       (if self_color_shift_var st
        then fst (shift_colors L
               (fst (shuffle_list L (data (heap st ! r))
                  (generate_seed (sha256 L) (self_password_entry st)) True))
               (generate_seed (sha256 L) (self_password_entry st)) True g2)
        else fst (shuffle_list L (data (heap st ! r))
               (generate_seed (sha256 L) (self_password_entry st)) True))\<rparr>) \<and>
   shift_colors L pixels seed reverse g3 = shift_loop L reverse pixels (random_seed L seed) \<and>
   fst (shuffle_list L pixels seed False) =
     map (\<lambda>i. pixels ! i) (fst (shuffle L [0..<length pixels] (random_seed L seed)))"
proof -
  assume ld: "loaded st r" and pw: "self_password_entry st \<noteq> []"
  have "processed (encrypt_image L st) =
     Some ((heap st ! r)\<lparr>data :=
       fst (shuffle_list L
         (if self_color_shift_var st
          then fst (shift_colors L (data (heap st ! r))
                 (generate_seed (sha256 L) (self_password_entry st)) False g1)
          else data (heap st ! r))
         (generate_seed (sha256 L) (self_password_entry st)) False)\<rparr>)"
    unfolding encrypt_image_loaded [OF ld pw]
    by (simp add: processed_def nth_update_snoc_new shift_colors_def)
  moreover have "processed (decrypt_image L st) =
     Some ((heap st ! r)\<lparr>data :=
       (if self_color_shift_var st
        then fst (shift_colors L
               (fst (shuffle_list L (data (heap st ! r))
                  (generate_seed (sha256 L) (self_password_entry st)) True))
               (generate_seed (sha256 L) (self_password_entry st)) True g2)
        else fst (shuffle_list L (data (heap st ! r))
               (generate_seed (sha256 L) (self_password_entry st)) True))\<rparr>)"
    unfolding decrypt_image_loaded [OF ld pw]
    by (simp add: processed_def shift_colors_def)
  moreover have "shift_colors L pixels seed reverse g3 =
      shift_loop L reverse pixels (random_seed L seed)"
    by (simp add: shift_colors_def)
  moreover have "fst (shuffle_list L pixels seed False) =
      map (\<lambda>i. pixels ! i) (fst (shuffle L [0..<length pixels] (random_seed L seed)))"
    by (simp add: shuffle_list_def case_prod_beta draw_indices_forward)
  ultimately show ?thesis by blast
qed

theorem pipeline_stage_order_witness:
  "loaded example_state 0 \<and> self_password_entry example_state \<noteq> [] \<and>
   processed (encrypt_image example_runtime example_state) =
     Some (example_image\<lparr>data :=
       fst (shuffle_list example_runtime
         (fst (shift_colors example_runtime (data example_image) 7 False 99)) 7 False)\<rparr>)"
proof -
  have im: "heap example_state ! 0 = example_image"
    and fl: "self_color_shift_var example_state"
    by (simp_all add: example_state_def)
  have seed: "generate_seed (sha256 example_runtime) (self_password_entry example_state) = 7"
    by (simp add: generate_seed_eq example_runtime_def example_state_def)
  from pipeline_stage_order [OF example_state_loaded example_state_password,
      where L = example_runtime and ?g1.0 = 99]
  have "processed (encrypt_image example_runtime example_state) =
     Some (example_image\<lparr>data :=
       fst (shuffle_list example_runtime
         (fst (shift_colors example_runtime (data example_image) 7 False 99)) 7 False)\<rparr>)"
    by (simp add: im fl seed)
  then show ?thesis using example_state_loaded example_state_password by simp
qed

text \<open>
  C9. The result of each transform stage depends only on its explicit inputs: the
  pixels returned by \<^verbatim>\<open>shift_colors\<close> (and the generator state it leaves) are the same
  for any two states \<open>g1\<close>, \<open>g2\<close> of the shared generator at the time of the call, and
  \<^verbatim>\<open>shuffle_pixels\<close> returns the same image and leaves the same state whatever the
  generator state \<open>g\<close> at the time of the call, because each stage seeds the generator
  before its first draw.
\<close>

theorem stages_ignore_generator_state:
  "shift_colors L pixels seed reverse g1 = shift_colors L pixels seed reverse g2 \<and>
   shuffle_pixels L img seed reverse (st\<lparr>rng := g\<rparr>) = shuffle_pixels L img seed reverse st"
  by (simp add: shift_colors_def shuffle_pixels_def getdata_def Image_new_def Let_def
      case_prod_beta)

text \<open>
  C10. With colour shifting enabled, Encrypt changes the loaded image in place: after
  it, \<^verbatim>\<open>self.image\<close> is still the same object \<open>r\<close> and that object holds the shifted
  pixel data, while the processed image is another, new object. \<^verbatim>\<open>shuffle_pixels\<close>
  returns a reference to a newly allocated image and leaves every image object that
  existed before the call unchanged.
\<close>

theorem encrypt_mutates_source_image:
  "loaded st r \<Longrightarrow> self_password_entry st \<noteq> [] \<Longrightarrow> self_color_shift_var st \<Longrightarrow>
   self_image (encrypt_image L st) = Some r \<and>
   heap (encrypt_image L st) ! r =
     (heap st ! r)\<lparr>data := fst (shift_colors L (data (heap st ! r))
        (generate_seed (sha256 L) (self_password_entry st)) False (rng st))\<rparr> \<and>
   self_processed_image (encrypt_image L st) = Some (length (heap st)) \<and>
   fst (shuffle_pixels L img seed reverse st') = length (heap st') \<and>
   length (heap (snd (shuffle_pixels L img seed reverse st'))) = Suc (length (heap st')) \<and>
   take (length (heap st')) (heap (snd (shuffle_pixels L img seed reverse st'))) = heap st'"
proof -
  assume ld: "loaded st r" and pw: "self_password_entry st \<noteq> []"
    and fl: "self_color_shift_var st"
  have r: "r < length (heap st)" and im: "self_image st = Some r"
    using ld by (simp_all add: loaded_def)
  show ?thesis
    unfolding encrypt_image_loaded [OF ld pw]
    using r im fl by (simp add: nth_update_snoc_old shuffle_pixels_fresh)
qed

theorem encrypt_mutates_source_image_witness:
  "loaded example_state 0 \<and> self_password_entry example_state \<noteq> [] \<and>
   self_color_shift_var example_state \<and>
   heap (encrypt_image example_runtime example_state) ! 0 =
     example_image\<lparr>data := [(62, 79, 96), (113, 130, 147), (164, 181, 198), (215, 232, 249)]\<rparr>"
proof -
  have im: "heap example_state ! 0 = example_image"
    and fl: "self_color_shift_var example_state"
    and g: "rng example_state = 0"
    by (simp_all add: example_state_def)
  have seed: "generate_seed (sha256 example_runtime) (self_password_entry example_state) = 7"
    by (simp add: generate_seed_eq example_runtime_def example_state_def)
  have "fst (shift_colors example_runtime (data example_image) 7 False 0) =
      [(62, 79, 96), (113, 130, 147), (164, 181, 198), (215, 232, 249)]"
    by (simp add: shift_colors_def example_image_def randint_def randbelow_def
        example_runtime_def)
  with encrypt_mutates_source_image [OF example_state_loaded example_state_password fl,
      of example_runtime]
  show ?thesis using example_state_loaded example_state_password fl
    by (simp add: im seed g)
qed

end
